theory Spec2Isabelle
  imports Main "HOL-Library.Sublist" "HOL-Library.Multiset"
begin

section \<open>Requests, responses and errors\<close>

text \<open>
  The unit under verification is \<^verbatim>\<open>core/config/urls.py\<close>: one view function,
  \<^verbatim>\<open>health_check\<close>, and the module-level list \<^verbatim>\<open>urlpatterns\<close>. A request carries
  what a view may inspect; a response carries what the client sees. Exceptions are
  values of \<open>error\<close>.
\<close>

record request =
  http_method :: string
  path_info :: string
  headers :: "(string \<times> string) list"
  body :: string

record response =
  status_code :: nat
  content_type :: string
  content :: string

datatype error = TypeError | Resolver404 | NoReverseMatch

section \<open>JSON responses\<close>

text \<open>
  \<^verbatim>\<open>JsonResponse(data)\<close> is called with its defaults: \<^verbatim>\<open>safe=True\<close> rejects
  anything but a dict with \<^verbatim>\<open>TypeError\<close>, the payload is rendered by
  \<^verbatim>\<open>json.dumps\<close> (separators \<^verbatim>\<open>", "\<close> and \<^verbatim>\<open>": "\<close>, ASCII escaping), the content type
  is \<^verbatim>\<open>application/json\<close> and the status is 200.
\<close>

datatype json = JNull | JBool bool | JStr string | JList "json list"
  | JDict "(string \<times> json) list"

definition hexdigits :: string where
  "hexdigits = ''0123456789abcdef''"

definition escape_char :: "char \<Rightarrow> string" where
  "escape_char c =
     (if c = CHR 0x5C then [CHR 0x5C, CHR 0x5C]
      else if c = CHR 0x22 then [CHR 0x5C, CHR 0x22]
      else if c = CHR 0x08 then [CHR 0x5C, CHR ''b'']
      else if c = CHR 0x0C then [CHR 0x5C, CHR ''f'']
      else if c = CHR 0x0A then [CHR 0x5C, CHR ''n'']
      else if c = CHR 0x0D then [CHR 0x5C, CHR ''r'']
      else if c = CHR 0x09 then [CHR 0x5C, CHR ''t'']
      else if (0x20::nat) \<le> of_char c \<and> of_char c \<le> (0x7E::nat) then [c]
      else [CHR 0x5C, CHR ''u'', CHR ''0'', CHR ''0'',
            hexdigits ! (of_char c div 16), hexdigits ! (of_char c mod 16)])"

definition encode_basestring_ascii :: "string \<Rightarrow> string" where
  "encode_basestring_ascii s = [CHR 0x22] @ concat (map escape_char s) @ [CHR 0x22]"

fun join :: "string \<Rightarrow> string list \<Rightarrow> string" where
  "join sep [] = []"
| "join sep [x] = x"
| "join sep (x # y # ys) = x @ sep @ join sep (y # ys)"

fun json_dumps :: "json \<Rightarrow> string" where
  "json_dumps JNull = ''null''"
| "json_dumps (JBool b) = (if b then ''true'' else ''false'')"
| "json_dumps (JStr s) = encode_basestring_ascii s"
| "json_dumps (JList xs) = ''['' @ join '', '' (map json_dumps xs) @ '']''"
| "json_dumps (JDict kvs) =
     ''{'' @ join '', ''
        (map (\<lambda>(k, v). encode_basestring_ascii k @ '': '' @ json_dumps v) kvs) @ ''}''"

fun JsonResponse :: "json \<Rightarrow> error + response" where
  "JsonResponse (JDict kvs) =
     Inr \<lparr>status_code = 200, content_type = ''application/json'',
          content = json_dumps (JDict kvs)\<rparr>"
| "JsonResponse _ = Inl TypeError"

section \<open>The health check view\<close>

text \<open>
  \<^verbatim>\<open>def health_check(request): return JsonResponse({'status': 'healthy'})\<close>.
  A view runs against a state \<open>'st\<close> (whatever the process holds: database, caches,
  sessions, module globals) and returns it with its result; this one hands the state
  back as it got it.
\<close>

definition health_check :: "request \<Rightarrow> 'st \<Rightarrow> (error + response) \<times> 'st" where
  "health_check request st = (JsonResponse (JDict [(''status'', JStr ''healthy'')]), st)"

section \<open>The routing table\<close>

text \<open>
  The second argument of \<^verbatim>\<open>path\<close> is either a callable view or the tuple that
  \<^verbatim>\<open>include(...)\<close> and \<^verbatim>\<open>admin.site.urls\<close> produce. A callable gives a
  \<^verbatim>\<open>URLPattern\<close> (an endpoint, which keeps its name), a tuple gives a
  \<^verbatim>\<open>URLResolver\<close> (a mount point for another URL configuration).
\<close>

datatype callable = HealthCheck | SpectacularAPIView | SpectacularSwaggerView string

datatype urlconf = AdminSiteUrls | Include string

datatype view = Callable callable | UrlconfTuple urlconf

datatype url_entry = URLPattern string callable "string option" | URLResolver string urlconf

fun path :: "string \<Rightarrow> view \<Rightarrow> string option \<Rightarrow> url_entry" where
  "path r (Callable c) n = URLPattern r c n"
| "path r (UrlconfTuple u) n = URLResolver r u"

abbreviation admin_site_urls :: view where
  "admin_site_urls \<equiv> UrlconfTuple AdminSiteUrls"

abbreviation "include" :: "string \<Rightarrow> view" where
  "include m \<equiv> UrlconfTuple (Include m)"

definition urlpatterns :: "url_entry list" where
  "urlpatterns =
    [path ''admin/'' admin_site_urls None,
     path ''health/'' (Callable HealthCheck) (Some ''health''),
     path ''api/users/'' (include ''users.urls'') None,
     path ''api/procurements/'' (include ''procurements.urls'') None,
     path ''api/chat/'' (include ''chat.urls'') None,
     path ''api/payments/'' (include ''payments.urls'') None,
     path ''api/schema/'' (Callable SpectacularAPIView) (Some ''schema''),
     path ''api/docs/'' (Callable (SpectacularSwaggerView ''schema'')) (Some ''swagger-ui'')]"

fun route :: "url_entry \<Rightarrow> string" where
  "route (URLPattern r c n) = r"
| "route (URLResolver r u) = r"

fun name :: "url_entry \<Rightarrow> string option" where
  "name (URLPattern r c n) = n"
| "name (URLResolver r u) = None"

fun url_name :: "callable \<Rightarrow> string option" where
  "url_name (SpectacularSwaggerView n) = Some n"
| "url_name _ = None"

section \<open>Resolving a path\<close>

text \<open>
  How a route is matched and how the table is walked is the framework's doing
  (\<^verbatim>\<open>django.urls\<close>: \<^verbatim>\<open>RoutePattern.match\<close>, \<^verbatim>\<open>URLPattern.resolve\<close>,
  \<^verbatim>\<open>URLResolver.resolve\<close>); it is written out here as the framework defines it.
  None of the eight routes has a converter (\<^verbatim>\<open><int:pk>\<close> and the like), so a route
  matches by plain string comparison: an endpoint matches the whole remaining path, a
  mount point matches a leading part of it and hands the rest on.
\<close>

definition route_match :: "string \<Rightarrow> bool \<Rightarrow> string \<Rightarrow> string option" where
  "route_match r endpoint p =
     (if endpoint then (if r = p then Some [] else None)
      else (if prefix r p then Some (drop (length r) p) else None))"

fun is_endpoint :: "url_entry \<Rightarrow> bool" where
  "is_endpoint (URLPattern r c n) = True"
| "is_endpoint (URLResolver r u) = False"

definition pattern_matches :: "url_entry \<Rightarrow> string \<Rightarrow> bool" where
  "pattern_matches e p = (route_match (route e) (is_endpoint e) p \<noteq> None)"

text \<open>
  The included URL configurations are not part of this unit: \<open>sub u rest\<close> stands for
  what the configuration \<open>u\<close> resolves the rest of the path to (\<open>None\<close> when it raises
  \<^verbatim>\<open>Resolver404\<close>), with \<open>'c\<close> the collaborator's own views.
\<close>

datatype 'c resolver_match = ViewMatch callable | SubMatch urlconf 'c

fun entry_resolve ::
  "(urlconf \<Rightarrow> string \<Rightarrow> 'c option) \<Rightarrow> url_entry \<Rightarrow> string \<Rightarrow> 'c resolver_match option" where
  "entry_resolve sub (URLPattern r c n) p =
     (case route_match r True p of
        None \<Rightarrow> None
      | Some new_path \<Rightarrow> Some (ViewMatch c))"
| "entry_resolve sub (URLResolver r u) p =
     (case route_match r False p of
        None \<Rightarrow> None
      | Some new_path \<Rightarrow>
          (case sub u new_path of None \<Rightarrow> None | Some m \<Rightarrow> Some (SubMatch u m)))"

text \<open>
  The resolver tries the entries in order; an entry that does not resolve the path
  (its pattern fails, or its included configuration finds nothing) is skipped.
\<close>

fun resolve ::
  "(urlconf \<Rightarrow> string \<Rightarrow> 'c option) \<Rightarrow> url_entry list \<Rightarrow> string \<Rightarrow> 'c resolver_match option" where
  "resolve sub [] p = None"
| "resolve sub (e # es) p =
     (case entry_resolve sub e p of
        Some m \<Rightarrow> Some m
      | None \<Rightarrow> resolve sub es p)"

text \<open>The root resolver consumes the leading slash of the request path.\<close>

fun root_resolve ::
  "(urlconf \<Rightarrow> string \<Rightarrow> 'c option) \<Rightarrow> url_entry list \<Rightarrow> string \<Rightarrow> 'c resolver_match option" where
  "root_resolve sub es [] = None"
| "root_resolve sub es (c # new_path) =
     (if c = CHR ''/'' then resolve sub es new_path else None)"

section \<open>Reverse lookup\<close>

text \<open>
  \<^verbatim>\<open>reverse(viewname)\<close> searches more than the eight entries: a mount point brings in
  the names of the configuration it includes. What such a configuration registers is not
  part of this unit; \<open>included\<close> records what the lookup reads of it:
  \<^item> \<open>app_name\<close>: the module's \<^verbatim>\<open>app_name\<close>, if it declares one (the mount then is a
    namespace of that name, since no \<^verbatim>\<open>include\<close> of the table passes a namespace);
  \<^item> \<open>reverse_dict v\<close>: the paths, relative to the mount point and in the order of the
    configuration's own lookup list, that its name \<open>v\<close> reverses to without arguments;
  \<^item> \<open>app_dict a\<close>: the instance namespaces of the application \<open>a\<close> inside it;
  \<^item> \<open>namespace_dict ns\<close>: whether it has a namespace \<open>ns\<close> inside it;
  \<^item> \<open>reverse_in_namespace ns rest v\<close>: what the lookup of \<open>v\<close>, continued inside that
    namespace along the remaining namespace path \<open>rest\<close>, gives (relative to the mount
    point), or \<open>None\<close> when it fails.
  \<^verbatim>\<open>admin.site.urls\<close> is the tuple \<^verbatim>\<open>(urls, 'admin', 'admin')\<close>.
\<close>

record included =
  app_name :: "string option"
  reverse_dict :: "string \<Rightarrow> string list"
  app_dict :: "string \<Rightarrow> string list"
  namespace_dict :: "string \<Rightarrow> bool"
  reverse_in_namespace :: "string \<Rightarrow> string list \<Rightarrow> string \<Rightarrow> string option"

fun app_name_of :: "(urlconf \<Rightarrow> included) \<Rightarrow> urlconf \<Rightarrow> string option" where
  "app_name_of inc AdminSiteUrls = Some ''admin''"
| "app_name_of inc (Include m) = app_name (inc (Include m))"

text \<open>A mount point is a namespace when its configuration has a non-empty \<^verbatim>\<open>app_name\<close>.\<close>

definition namespace_of :: "(urlconf \<Rightarrow> included) \<Rightarrow> urlconf \<Rightarrow> string option" where
  "namespace_of inc u =
     (case app_name_of inc u of
        None \<Rightarrow> None
      | Some a \<Rightarrow> if a = [] then None else Some a)"

text \<open>
  The lookup list of a name is filled from the last entry of the table to the first: an
  endpoint adds its route under its own name, a mount point that is no namespace adds
  what its configuration has under that name, behind the mount point's route.
\<close>

fun entry_lookups :: "(urlconf \<Rightarrow> included) \<Rightarrow> url_entry \<Rightarrow> string \<Rightarrow> string list" where
  "entry_lookups inc (URLPattern r c n) v = (if n = Some v then [r] else [])"
| "entry_lookups inc (URLResolver r u) v =
     (case namespace_of inc u of
        Some a \<Rightarrow> []
      | None \<Rightarrow> map (\<lambda>pat. r @ pat) (reverse_dict (inc u) v))"

definition lookups :: "(urlconf \<Rightarrow> included) \<Rightarrow> url_entry list \<Rightarrow> string \<Rightarrow> string list" where
  "lookups inc es v = concat (map (\<lambda>e. entry_lookups inc e v) (rev es))"

fun entry_apps :: "(urlconf \<Rightarrow> included) \<Rightarrow> url_entry \<Rightarrow> string \<Rightarrow> string list" where
  "entry_apps inc (URLPattern r c n) a = []"
| "entry_apps inc (URLResolver r u) a =
     (case namespace_of inc u of
        Some an \<Rightarrow> (if an = a then [an] else [])
      | None \<Rightarrow> app_dict (inc u) a)"

definition apps :: "(urlconf \<Rightarrow> included) \<Rightarrow> url_entry list \<Rightarrow> string \<Rightarrow> string list" where
  "apps inc es a = concat (map (\<lambda>e. entry_apps inc e a) (rev es))"

text \<open>
  The namespaces are a dictionary filled in the same order, so of several mount points
  that bring in one namespace the first of the table stays. The flag tells whether the
  mount point is the namespace itself or has it inside.
\<close>

fun namespaces ::
  "(urlconf \<Rightarrow> included) \<Rightarrow> url_entry list \<Rightarrow> string \<Rightarrow> (string \<times> urlconf \<times> bool) option" where
  "namespaces inc [] ns = None"
| "namespaces inc (URLPattern r c n # es) ns = namespaces inc es ns"
| "namespaces inc (URLResolver r u # es) ns =
     (case namespace_of inc u of
        Some a \<Rightarrow> (if a = ns then Some (r, u, True) else namespaces inc es ns)
      | None \<Rightarrow> (if namespace_dict (inc u) ns then Some (r, u, False)
                 else namespaces inc es ns))"

text \<open>
  A part of the namespace path that names an application stands for that application's
  first instance, unless it is itself one of the instances.
\<close>

definition resolve_app :: "string list \<Rightarrow> string \<Rightarrow> string" where
  "resolve_app app_list ns =
     (case app_list of
        [] \<Rightarrow> ns
      | a # as \<Rightarrow> if ns \<in> set app_list then ns else a)"

fun reverse_within :: "included \<Rightarrow> string list \<Rightarrow> string \<Rightarrow> string option" where
  "reverse_within c [] v = (case reverse_dict c v of [] \<Rightarrow> None | x # xs \<Rightarrow> Some x)"
| "reverse_within c (ns # rest) v =
     (if namespace_dict c (resolve_app (app_dict c ns) ns)
      then reverse_in_namespace c (resolve_app (app_dict c ns) ns) rest v
      else None)"

text \<open>\<^verbatim>\<open>*path, view = viewname.split(":")\<close>\<close>

fun split_colon :: "string \<Rightarrow> string list" where
  "split_colon [] = [[]]"
| "split_colon (x # xs) =
     (if x = CHR '':'' then [] # split_colon xs
      else (case split_colon xs of
              [] \<Rightarrow> [[x]]
            | y # ys \<Rightarrow> (x # y) # ys))"

text \<open>
  The lookup itself, with no arguments and the script prefix \<^verbatim>\<open>/\<close>: the first path of
  the lookup list that reverses is the answer, so among entries of one name the last
  registered wins.
\<close>

definition reverse ::
  "(urlconf \<Rightarrow> included) \<Rightarrow> url_entry list \<Rightarrow> string \<Rightarrow> error + string" where
  "reverse inc es viewname =
     (case butlast (split_colon viewname) of
        [] \<Rightarrow>
          (case lookups inc es (last (split_colon viewname)) of
             [] \<Rightarrow> Inl NoReverseMatch
           | r # rs \<Rightarrow> Inr (CHR ''/'' # r))
      | ns # rest \<Rightarrow>
          (case namespaces inc es (resolve_app (apps inc es ns) ns) of
             None \<Rightarrow> Inl NoReverseMatch
           | Some (r, u, whole) \<Rightarrow>
               (case (if whole
                      then reverse_within (inc u) rest (last (split_colon viewname))
                      else reverse_in_namespace (inc u) (resolve_app (apps inc es ns) ns) rest
                             (last (split_colon viewname))) of
                  None \<Rightarrow> Inl NoReverseMatch
                | Some rel \<Rightarrow> Inr (CHR ''/'' # r @ rel))))"

text \<open>An included configuration that registers nothing.\<close>

definition no_names :: included where
  "no_names = \<lparr>app_name = None, reverse_dict = (\<lambda>v. []), app_dict = (\<lambda>a. []),
                namespace_dict = (\<lambda>ns. False), reverse_in_namespace = (\<lambda>ns rest v. None)\<rparr>"

text \<open>
  The four included modules come after the health entry, so their names are looked at
  before it: the health route is found when none of them brings in that name.
\<close>

definition brings_in :: "(urlconf \<Rightarrow> included) \<Rightarrow> string \<Rightarrow> string \<Rightarrow> bool" where
  "brings_in inc m v =
     (namespace_of inc (Include m) = None \<and> reverse_dict (inc (Include m)) v \<noteq> [])"

text \<open>
  Included configurations of which one, \<^verbatim>\<open>users.urls\<close>, declares no \<^verbatim>\<open>app_name\<close>
  and has a route \<^verbatim>\<open>health/\<close> named \<^verbatim>\<open>health\<close>; the others register nothing.
\<close>

definition users_with_health :: "urlconf \<Rightarrow> included" where
  "users_with_health u =
     (if u = Include ''users.urls''
      then no_names\<lparr>reverse_dict := (\<lambda>v. if v = ''health'' then [''health/''] else [])\<rparr>
      else no_names)"

text \<open>
  Included configurations of which the admin site has its index page, named
  \<^verbatim>\<open>index\<close>, at its root.
\<close>

definition admin_with_index :: "urlconf \<Rightarrow> included" where
  "admin_with_index u =
     (if u = AdminSiteUrls
      then no_names\<lparr>reverse_dict := (\<lambda>v. if v = ''index'' then [[]] else [])\<rparr>
      else no_names)"

text \<open>The names the table itself registers, and the routes it has under a name.\<close>

fun named_routes :: "url_entry list \<Rightarrow> string \<Rightarrow> string list" where
  "named_routes [] n = []"
| "named_routes (e # es) n =
     (if name e = Some n then route e # named_routes es n else named_routes es n)"

fun registered_names :: "url_entry list \<Rightarrow> string list" where
  "registered_names [] = []"
| "registered_names (e # es) =
     (case name e of None \<Rightarrow> registered_names es | Some n \<Rightarrow> n # registered_names es)"

section \<open>Serving requests\<close>

text \<open>
  The process holds the routing table and the application state. The table is built
  when the module is imported; a request is resolved against it and the view found is
  called. The table is an ordinary module-level list, within reach of any code that
  runs in the process, so a view runs against the whole process state and returns it
  with its result. Views other than \<open>health_check\<close> belong to collaborators and are
  the parameter \<open>ext\<close>: they may change the state and may fail.
\<close>

record 'st server =
  ROOT_URLCONF :: "url_entry list"
  app_state :: 'st

definition startup :: "'st \<Rightarrow> 'st server" where
  "startup st = \<lparr>ROOT_URLCONF = urlpatterns, app_state = st\<rparr>"

fun call_view ::
  "('c resolver_match \<Rightarrow> request \<Rightarrow> 'st server \<Rightarrow> (error + response) \<times> 'st server) \<Rightarrow>
   'c resolver_match \<Rightarrow> request \<Rightarrow> 'st server \<Rightarrow> (error + response) \<times> 'st server" where
  "call_view ext (ViewMatch HealthCheck) req srv = health_check req srv"
| "call_view ext m req srv = ext m req srv"

definition get_response ::
  "(urlconf \<Rightarrow> string \<Rightarrow> 'c option) \<Rightarrow>
   ('c resolver_match \<Rightarrow> request \<Rightarrow> 'st server \<Rightarrow> (error + response) \<times> 'st server) \<Rightarrow>
   'st server \<Rightarrow> request \<Rightarrow> (error + response) \<times> 'st server" where
  "get_response sub ext srv req =
     (case root_resolve sub (ROOT_URLCONF srv) (path_info req) of
        None \<Rightarrow> (Inl Resolver404, srv)
      | Some m \<Rightarrow> call_view ext m req srv)"

fun serve ::
  "(urlconf \<Rightarrow> string \<Rightarrow> 'c option) \<Rightarrow>
   ('c resolver_match \<Rightarrow> request \<Rightarrow> 'st server \<Rightarrow> (error + response) \<times> 'st server) \<Rightarrow>
   'st server \<Rightarrow> request list \<Rightarrow> 'st server" where
  "serve sub ext srv [] = srv"
| "serve sub ext srv (req # reqs) = serve sub ext (snd (get_response sub ext srv req)) reqs"


text \<open>No route is a leading part of a later or earlier one.\<close>

fun prefix_free :: "string list \<Rightarrow> bool" where
  "prefix_free [] = True"
| "prefix_free (r # rs) =
     (list_all (\<lambda>s. \<not> prefix r s \<and> \<not> prefix s r) rs \<and> prefix_free rs)"

text \<open>The response of the health check.\<close>

definition healthy :: response where
  \<open>healthy = \<lparr>status_code = 200, content_type = ''application/json'',
              content = ''{"status": "healthy"}''\<rparr>\<close>

section \<open>Facts about the health check\<close>

lemma health_payload:
  \<open>JsonResponse (JDict [(''status'', JStr ''healthy'')]) = Inr healthy\<close>
  by (simp add: healthy_def encode_basestring_ascii_def escape_char_def)

lemma health_check_eq: "health_check req st = (Inr healthy, st)"
  by (simp only: health_check_def health_payload)

section \<open>Facts about the table and the resolver\<close>

lemma routes_table:
  "map route urlpatterns =
     [''admin/'', ''health/'', ''api/users/'', ''api/procurements/'', ''api/chat/'',
      ''api/payments/'', ''api/schema/'', ''api/docs/'']"
  by (simp add: urlpatterns_def)

lemma prefix_free_routes: "prefix_free (map route urlpatterns)"
  unfolding routes_table by simp

lemma distinct_urlpatterns: "distinct urlpatterns"
  by (simp add: urlpatterns_def)

lemma pattern_matches_prefix: "pattern_matches e p \<Longrightarrow> prefix (route e) p"
  by (cases e) (auto simp: pattern_matches_def route_match_def split: if_splits)

lemma entry_resolve_no_match: "\<not> pattern_matches e p \<Longrightarrow> entry_resolve sub e p = None"
  by (cases e) (auto simp: pattern_matches_def)

lemma resolve_none: "(\<And>e. e \<in> set es \<Longrightarrow> entry_resolve sub e p = None) \<Longrightarrow> resolve sub es p = None"
  by (induction es) auto

lemma resolve_unique:
  assumes "\<And>a. a \<in> set es \<Longrightarrow> pattern_matches a p \<Longrightarrow> a = e"
    and "e \<in> set es"
  shows "resolve sub es p = entry_resolve sub e p"
  using assms
proof (induction es)
  case Nil
  then show ?case by simp
next
  case (Cons x xs)
  show ?case
  proof (cases "x = e")
    case True
    show ?thesis
    proof (cases "entry_resolve sub e p")
      case None
      have "resolve sub xs p = None"
      proof (rule resolve_none)
        fix a assume "a \<in> set xs"
        then have "pattern_matches a p \<Longrightarrow> a = e" using Cons.prems(1) by simp
        then show "entry_resolve sub a p = None"
          using None entry_resolve_no_match by blast
      qed
      with None True show ?thesis by simp
    next
      case (Some m)
      with True show ?thesis by simp
    qed
  next
    case False
    then have "\<not> pattern_matches x p" using Cons.prems(1) by auto
    then have "entry_resolve sub x p = None" by (rule entry_resolve_no_match)
    moreover have "e \<in> set xs" using Cons.prems(2) False by auto
    moreover have "\<And>a. a \<in> set xs \<Longrightarrow> pattern_matches a p \<Longrightarrow> a = e"
      using Cons.prems(1) by simp
    ultimately show ?thesis using Cons.IH by simp
  qed
qed

lemma prefix_free_nth:
  "prefix_free rs \<Longrightarrow> i < length rs \<Longrightarrow> j < length rs \<Longrightarrow> i \<noteq> j \<Longrightarrow> \<not> prefix (rs ! i) (rs ! j)"
proof (induction rs arbitrary: i j)
  case Nil
  then show ?case by simp
next
  case (Cons r rs)
  then show ?case
    by (cases i; cases j) (auto simp: list_all_iff)
qed

lemma urlpatterns_one_match:
  assumes "a \<in> set urlpatterns" "b \<in> set urlpatterns"
    and "pattern_matches a p" "pattern_matches b p"
  shows "a = b"
proof (rule ccontr)
  assume ne: "a \<noteq> b"
  obtain i where i: "i < length urlpatterns" "urlpatterns ! i = a"
    using assms(1) by (auto simp: in_set_conv_nth)
  obtain j where j: "j < length urlpatterns" "urlpatterns ! j = b"
    using assms(2) by (auto simp: in_set_conv_nth)
  have ij: "i \<noteq> j" using ne i j by auto
  have "prefix (route a) p" "prefix (route b) p"
    using assms(3,4) by (auto dest: pattern_matches_prefix)
  then have "prefix (route a) (route b) \<or> prefix (route b) (route a)"
    by (rule prefix_same_cases)
  moreover have "\<not> prefix (route a) (route b)"
    using prefix_free_nth[OF prefix_free_routes, of i j] i j ij by simp
  moreover have "\<not> prefix (route b) (route a)"
    using prefix_free_nth[OF prefix_free_routes, of j i] i j ij by simp
  ultimately show False by blast
qed

lemma resolve_first_match:
  "resolve sub urlpatterns p =
     (case find (\<lambda>e. pattern_matches e p) urlpatterns of
        None \<Rightarrow> None
      | Some e \<Rightarrow> entry_resolve sub e p)"
proof (cases "find (\<lambda>e. pattern_matches e p) urlpatterns")
  case None
  then have "\<And>e. e \<in> set urlpatterns \<Longrightarrow> entry_resolve sub e p = None"
    by (auto simp: find_None_iff intro: entry_resolve_no_match)
  then have "resolve sub urlpatterns p = None" by (rule resolve_none)
  with None show ?thesis by simp
next
  case (Some e)
  then have e: "e \<in> set urlpatterns" "pattern_matches e p"
    by (auto simp: find_Some_iff)
  have "resolve sub urlpatterns p = entry_resolve sub e p"
    using urlpatterns_one_match[OF _ e(1) _ e(2)] e(1) by (intro resolve_unique) auto
  with Some show ?thesis by simp
qed

lemma resolve_same_set:
  assumes "set es = set urlpatterns"
  shows "resolve sub es p = resolve sub urlpatterns p"
proof (cases "\<exists>e \<in> set urlpatterns. pattern_matches e p")
  case True
  then obtain e where e: "e \<in> set urlpatterns" "pattern_matches e p" by blast
  have one: "\<And>a. a \<in> set urlpatterns \<Longrightarrow> pattern_matches a p \<Longrightarrow> a = e"
    using urlpatterns_one_match e by blast
  have "resolve sub es p = entry_resolve sub e p"
    using one e(1) assms by (intro resolve_unique) auto
  moreover have "resolve sub urlpatterns p = entry_resolve sub e p"
    using one e(1) by (intro resolve_unique) auto
  ultimately show ?thesis by simp
next
  case False
  then have none: "\<And>e. e \<in> set urlpatterns \<Longrightarrow> entry_resolve sub e p = None"
    by (auto intro: entry_resolve_no_match)
  have "resolve sub es p = None" using none assms by (intro resolve_none) auto
  moreover have "resolve sub urlpatterns p = None" using none by (intro resolve_none) auto
  ultimately show ?thesis by simp
qed

section \<open>Facts about serving\<close>

lemma get_response_health:
  assumes "path_info req = ''/health/''"
  shows "get_response sub ext (startup st) req = (Inr healthy, startup st)"
  using assms
  by (simp add: get_response_def startup_def urlpatterns_def route_match_def health_check_eq)






lemma no_prefix_no_match:
  assumes "\<forall>r \<in> set (map route urlpatterns). \<not> prefix r p"
  shows "resolve sub urlpatterns p = None"
proof (rule resolve_none)
  fix e assume "e \<in> set urlpatterns"
  then have "\<not> prefix (route e) p" using assms by simp
  then have "\<not> pattern_matches e p" using pattern_matches_prefix by blast
  then show "entry_resolve sub e p = None" by (rule entry_resolve_no_match)
qed

lemma one_match_length: "length (filter (\<lambda>e. pattern_matches e p) urlpatterns) \<le> 1"
proof (rule ccontr)
  let ?fs = "filter (\<lambda>e. pattern_matches e p) urlpatterns"
  assume "\<not> length ?fs \<le> 1"
  then have len1: "1 < length ?fs" by linarith
  then have len0: "0 < length ?fs" by linarith
  note len = len0 len1
  have d: "distinct ?fs" using distinct_urlpatterns by simp
  have ne: "?fs ! 0 \<noteq> ?fs ! 1"
    using d len by (simp add: nth_eq_iff_index_eq)
  have a: "?fs ! 0 \<in> set ?fs" using len(1) by (rule nth_mem)
  have b: "?fs ! 1 \<in> set ?fs" using len(2) by (rule nth_mem)
  from a b have "?fs ! 0 = ?fs ! 1"
    by (intro urlpatterns_one_match[of _ _ p]) auto
  with ne show False by contradiction
qed

lemma entry_resolve_match:
  assumes "pattern_matches e p"
  shows "entry_resolve sub e p =
     (case e of
        URLPattern r c n \<Rightarrow> Some (ViewMatch c)
      | URLResolver r u \<Rightarrow> map_option (SubMatch u) (sub u (drop (length r) p)))"
  using assms
  by (cases e) (auto simp: pattern_matches_def route_match_def split: if_splits option.splits)

lemma resolve_skip:
  "list_all (\<lambda>x. \<not> pattern_matches x p) es1 \<Longrightarrow> resolve sub (es1 @ es) p = resolve sub es p"
  by (induction es1) (simp_all add: entry_resolve_no_match)

section \<open>Facts about reverse lookup\<close>

text \<open>A name with a namespace goes through the mount point that is that namespace.\<close>

lemma reverse_admin_index: "reverse admin_with_index urlpatterns ''admin:index'' = Inr ''/admin/''"
  by (simp add: reverse_def apps_def urlpatterns_def namespace_of_def resolve_app_def
      admin_with_index_def no_names_def)

lemma namespace_of_admin: "namespace_of inc AdminSiteUrls = Some ''admin''"
  by (simp add: namespace_of_def)

lemma entry_lookups_admin: "entry_lookups inc (URLResolver r AdminSiteUrls) v = []"
  by (simp add: namespace_of_admin)

lemma entry_lookups_not_brought:
  "\<not> brings_in inc m v \<Longrightarrow> entry_lookups inc (URLResolver r (Include m)) v = []"
  by (cases "namespace_of inc (Include m)") (simp_all add: brings_in_def)

lemma rev_urlpatterns:
  "rev urlpatterns =
    [URLPattern ''api/docs/'' (SpectacularSwaggerView ''schema'') (Some ''swagger-ui''),
     URLPattern ''api/schema/'' SpectacularAPIView (Some ''schema''),
     URLResolver ''api/payments/'' (Include ''payments.urls''),
     URLResolver ''api/chat/'' (Include ''chat.urls''),
     URLResolver ''api/procurements/'' (Include ''procurements.urls''),
     URLResolver ''api/users/'' (Include ''users.urls''),
     URLPattern ''health/'' HealthCheck (Some ''health''),
     URLResolver ''admin/'' AdminSiteUrls]"
  by (simp add: urlpatterns_def)

lemma lookups_schema:
  "\<exists>rs. lookups inc urlpatterns ''schema'' = ''api/schema/'' # rs"
  unfolding lookups_def rev_urlpatterns by (simp del: entry_lookups.simps(2))

lemma lookups_swagger_ui:
  "\<exists>rs. lookups inc urlpatterns ''swagger-ui'' = ''api/docs/'' # rs"
  unfolding lookups_def rev_urlpatterns by (simp del: entry_lookups.simps(2))

lemma split_colon_plain:
  "split_colon ''schema'' = [''schema'']"
  "split_colon ''swagger-ui'' = [''swagger-ui'']"
  "split_colon ''health'' = [''health'']"
  by simp_all

lemma reverse_plain:
  "lookups inc es ''schema'' = r # rs \<Longrightarrow> reverse inc es ''schema'' = Inr (CHR ''/'' # r)"
  "lookups inc es ''swagger-ui'' = r # rs \<Longrightarrow> reverse inc es ''swagger-ui'' = Inr (CHR ''/'' # r)"
  "lookups inc es ''health'' = r # rs \<Longrightarrow> reverse inc es ''health'' = Inr (CHR ''/'' # r)"
  unfolding reverse_def split_colon_plain by simp_all

lemma reverse_schema: "reverse inc urlpatterns ''schema'' = Inr ''/api/schema/''"
  using lookups_schema[of inc] reverse_plain(1)[of inc urlpatterns] by auto

lemma reverse_swagger_ui: "reverse inc urlpatterns ''swagger-ui'' = Inr ''/api/docs/''"
  using lookups_swagger_ui[of inc] reverse_plain(2)[of inc urlpatterns] by auto

lemma lookups_health:
  assumes "\<not> brings_in inc ''users.urls'' ''health''"
    and "\<not> brings_in inc ''procurements.urls'' ''health''"
    and "\<not> brings_in inc ''chat.urls'' ''health''"
    and "\<not> brings_in inc ''payments.urls'' ''health''"
  shows "lookups inc urlpatterns ''health'' = [''health/'']"
  unfolding lookups_def rev_urlpatterns
  by (simp add: entry_lookups_admin entry_lookups_not_brought[OF assms(1)]
      entry_lookups_not_brought[OF assms(2)] entry_lookups_not_brought[OF assms(3)]
      entry_lookups_not_brought[OF assms(4)] del: entry_lookups.simps(2))

section \<open>The claims\<close>

text \<open>
  Claim C1. Whatever the request (method, headers, body), \<open>health_check\<close> returns
  status 200 with the body \<^verbatim>\<open>{"status": "healthy"}\<close>, and a request whose path is the health
  path is answered with exactly that response.
\<close>

theorem health_check_constant_response:
  \<open>health_check req st = (Inr healthy, st)
  \<and> status_code healthy = 200
  \<and> content healthy = ''{"status": "healthy"}''
  \<and> fst (health_check req st) = fst (health_check req' st')
  \<and> (path_info req = ''/health/'' \<longrightarrow>
       fst (get_response sub ext (startup st) req) = Inr healthy)\<close>
  by (simp add: health_check_eq get_response_health) (simp add: healthy_def)

text \<open>An instance of the health check served through the table.\<close>

theorem health_check_constant_response_witness:
  \<open>path_info \<lparr>http_method = ''POST'', path_info = ''/health/'',
       headers = [(''X-Probe'', ''1'')], body = ''ignored''\<rparr> = ''/health/''
  \<and> fst (get_response (\<lambda>u p. (None :: unit option)) (\<lambda>m r (s::nat server). (Inl TypeError, s\<lparr>ROOT_URLCONF := []\<rparr>)) (startup 0)
       \<lparr>http_method = ''POST'', path_info = ''/health/'',
        headers = [(''X-Probe'', ''1'')], body = ''ignored''\<rparr>) = Inr healthy\<close>
  using health_check_constant_response[of "\<lparr>http_method = ''POST'', path_info = ''/health/'',
       headers = [(''X-Probe'', ''1'')], body = ''ignored''\<rparr>" "0::nat"
       "\<lparr>http_method = ''GET'', path_info = ''/health/'', headers = [], body = []\<rparr>" "7::nat"
       "\<lambda>u p. (None :: unit option)" "\<lambda>m r (s::nat server). (Inl TypeError, s\<lparr>ROOT_URLCONF := []\<rparr>)"]
  by simp

text \<open>
  Claim C6. \<open>health_check\<close> leaves the application state as it was and never
  raises: its result is always a response. Served through the table, a request to the
  health path leaves the whole process state unchanged.
\<close>

theorem health_check_no_side_effects:
  "snd (health_check req st) = st
 \<and> (\<exists>r. fst (health_check req st) = Inr r)
 \<and> (path_info req = ''/health/'' \<longrightarrow>
      snd (get_response sub ext (startup st) req) = startup st
      \<and> (\<exists>r. fst (get_response sub ext (startup st) req) = Inr r))"
  by (simp add: health_check_eq get_response_health)

text \<open>An instance of the frame property, with a collaborator that would empty the table.\<close>

theorem health_check_no_side_effects_witness:
  "path_info \<lparr>http_method = ''DELETE'', path_info = ''/health/'',
       headers = [], body = ''x''\<rparr> = ''/health/''
 \<and> snd (get_response (\<lambda>u p. Some ()) (\<lambda>m r (s::nat server). (Inl TypeError, s\<lparr>ROOT_URLCONF := []\<rparr>)) (startup 5)
       \<lparr>http_method = ''DELETE'', path_info = ''/health/'', headers = [], body = ''x''\<rparr>)
     = startup 5"
  using health_check_no_side_effects[of "\<lparr>http_method = ''DELETE'', path_info = ''/health/'', headers = [], body = ''x''\<rparr>"
      "5::nat" "\<lambda>u p. Some ()" "\<lambda>m r (s::nat server). (Inl TypeError, s\<lparr>ROOT_URLCONF := []\<rparr>)"]
  by simp

text \<open>
  Claim C5. Dispatch over \<open>urlpatterns\<close> is first-match: for every path the handler
  chosen is the one bound to the first entry, in the declared order, whose pattern
  matches the path: the view of an endpoint, the included configuration of a mount
  point (which gets the rest of the path); no handler when no pattern matches. That the
  first match wins is a property of the resolver on any table: entries before the first
  match are passed over, an endpoint that matches first is chosen whatever follows, and
  so is a mount point whose configuration resolves the rest.
\<close>

theorem dispatch_is_first_match:
  "resolve sub urlpatterns p =
     (case find (\<lambda>e. pattern_matches e p) urlpatterns of
        None \<Rightarrow> None
      | Some (URLPattern r c n) \<Rightarrow> Some (ViewMatch c)
      | Some (URLResolver r u) \<Rightarrow> map_option (SubMatch u) (sub u (drop (length r) p)))
 \<and> map route urlpatterns =
     [''admin/'', ''health/'', ''api/users/'', ''api/procurements/'', ''api/chat/'',
      ''api/payments/'', ''api/schema/'', ''api/docs/'']
 \<and> (list_all (\<lambda>x. \<not> pattern_matches x p) es1 \<and> pattern_matches e p \<longrightarrow>
      resolve sub (es1 @ e # es2) p =
        (case e of
           URLPattern r c n \<Rightarrow> Some (ViewMatch c)
         | URLResolver r u \<Rightarrow>
             (case sub u (drop (length r) p) of
                Some m \<Rightarrow> Some (SubMatch u m)
              | None \<Rightarrow> resolve sub es2 p)))"
proof (intro conjI impI)
  show "resolve sub urlpatterns p =
     (case find (\<lambda>e. pattern_matches e p) urlpatterns of
        None \<Rightarrow> None
      | Some (URLPattern r c n) \<Rightarrow> Some (ViewMatch c)
      | Some (URLResolver r u) \<Rightarrow> map_option (SubMatch u) (sub u (drop (length r) p)))"
  proof (cases "find (\<lambda>e. pattern_matches e p) urlpatterns")
    case None
    then show ?thesis using resolve_first_match[of sub p] by simp
  next
    case (Some e)
    then have "pattern_matches e p" by (auto simp: find_Some_iff)
    then show ?thesis
      using Some resolve_first_match[of sub p] entry_resolve_match[of e p sub] by simp
  qed
next
  show "map route urlpatterns =
     [''admin/'', ''health/'', ''api/users/'', ''api/procurements/'', ''api/chat/'',
      ''api/payments/'', ''api/schema/'', ''api/docs/'']"
    by (rule routes_table)
next
  assume a: "list_all (\<lambda>x. \<not> pattern_matches x p) es1 \<and> pattern_matches e p"
  then have "resolve sub (es1 @ e # es2) p = resolve sub (e # es2) p"
    by (simp add: resolve_skip)
  also have "\<dots> =
        (case e of
           URLPattern r c n \<Rightarrow> Some (ViewMatch c)
         | URLResolver r u \<Rightarrow>
             (case sub u (drop (length r) p) of
                Some m \<Rightarrow> Some (SubMatch u m)
              | None \<Rightarrow> resolve sub es2 p))"
    using a entry_resolve_match[of e p sub]
    by (cases e) (simp_all split: option.splits)
  finally show "resolve sub (es1 @ e # es2) p =
        (case e of
           URLPattern r c n \<Rightarrow> Some (ViewMatch c)
         | URLResolver r u \<Rightarrow>
             (case sub u (drop (length r) p) of
                Some m \<Rightarrow> Some (SubMatch u m)
              | None \<Rightarrow> resolve sub es2 p))" .
qed

text \<open>
  An instance where two entries match the same path: the first one is chosen, not the
  last.
\<close>

theorem dispatch_is_first_match_witness:
  "list_all (\<lambda>x. \<not> pattern_matches x ''health/'') [path ''admin/'' admin_site_urls None]
 \<and> pattern_matches (path ''health/'' (Callable HealthCheck) (Some ''health'')) ''health/''
 \<and> pattern_matches (path ''health/'' (Callable SpectacularAPIView) None) ''health/''
 \<and> resolve (\<lambda>u rest. Some ())
      [path ''admin/'' admin_site_urls None,
       path ''health/'' (Callable HealthCheck) (Some ''health''),
       path ''health/'' (Callable SpectacularAPIView) None] ''health/''
    = Some (ViewMatch HealthCheck)"
proof -
  have h: "list_all (\<lambda>x. \<not> pattern_matches x ''health/'') [path ''admin/'' admin_site_urls None]
     \<and> pattern_matches (path ''health/'' (Callable HealthCheck) (Some ''health'')) ''health/''"
    by (simp add: pattern_matches_def route_match_def)
  have h2: "pattern_matches (path ''health/'' (Callable SpectacularAPIView) None) ''health/''"
    by (simp add: pattern_matches_def route_match_def)
  show ?thesis
    using h h2 dispatch_is_first_match[of "\<lambda>u rest. Some ()" "''health/''"
        "[path ''admin/'' admin_site_urls None]"
        "path ''health/'' (Callable HealthCheck) (Some ''health'')"
        "[path ''health/'' (Callable SpectacularAPIView) None]"]
    by simp
qed

text \<open>
  Claim C9. No route of the table is a leading part of another one; hence at most
  one entry matches any path, and resolving against any permutation of the table
  gives the same result as resolving against the table.
\<close>

theorem routes_prefix_free_order_irrelevant:
  "(\<forall>i < length urlpatterns. \<forall>j < length urlpatterns.
      i \<noteq> j \<longrightarrow> \<not> prefix (route (urlpatterns ! i)) (route (urlpatterns ! j)))
 \<and> length (filter (\<lambda>e. pattern_matches e p) urlpatterns) \<le> 1
 \<and> (mset es = mset urlpatterns \<longrightarrow> resolve sub es p = resolve sub urlpatterns p)"
proof (intro conjI allI impI)
  fix i j assume "i < length urlpatterns" "j < length urlpatterns" "i \<noteq> j"
  then show "\<not> prefix (route (urlpatterns ! i)) (route (urlpatterns ! j))"
    using prefix_free_nth[OF prefix_free_routes, of i j] by simp
next
  show "length (filter (\<lambda>e. pattern_matches e p) urlpatterns) \<le> 1"
    by (rule one_match_length)
next
  assume "mset es = mset urlpatterns"
  then have "set es = set urlpatterns" by (rule mset_eq_setD)
  then show "resolve sub es p = resolve sub urlpatterns p" by (rule resolve_same_set)
qed

text \<open>An instance of the table reversed.\<close>

theorem routes_prefix_free_order_irrelevant_witness:
  "(0::nat) < length urlpatterns \<and> (2::nat) < length urlpatterns \<and> (0::nat) \<noteq> 2
 \<and> \<not> prefix (route (urlpatterns ! 0)) (route (urlpatterns ! 2))
 \<and> mset (rev urlpatterns) = mset urlpatterns
 \<and> resolve (\<lambda>u p. Some ()) (rev urlpatterns) ''api/chat/rooms/'' =
     resolve (\<lambda>u p. Some ()) urlpatterns ''api/chat/rooms/''
 \<and> resolve (\<lambda>u p. Some ()) urlpatterns ''api/chat/rooms/'' =
     Some (SubMatch (Include ''chat.urls'') ())"
proof -
  have l: "length urlpatterns = 8" by (simp add: urlpatterns_def)
  have r: "resolve (\<lambda>u p. Some ()) urlpatterns ''api/chat/rooms/'' =
     Some (SubMatch (Include ''chat.urls'') ())"
    by (simp add: urlpatterns_def route_match_def)
  show ?thesis
    using routes_prefix_free_order_irrelevant[of "''api/chat/rooms/''" "rev urlpatterns" "\<lambda>u p. Some ()"] l r
    by simp
qed

text \<open>
  Claim C2. A path that begins with \<^verbatim>\<open>api/users/\<close>, \<^verbatim>\<open>api/procurements/\<close>,
  \<^verbatim>\<open>api/chat/\<close> or \<^verbatim>\<open>api/payments/\<close> is handed, with the prefix removed, to the included
  configuration of the module of that name: the result is what that configuration
  resolves and nothing else, and the mount point of that module is the only entry of
  the table whose pattern matches.
\<close>

theorem api_prefixes_select_their_sub_router:
  "root_resolve sub urlpatterns (''/api/users/'' @ rest) =
     map_option (SubMatch (Include ''users.urls'')) (sub (Include ''users.urls'') rest)
 \<and> root_resolve sub urlpatterns (''/api/procurements/'' @ rest) =
     map_option (SubMatch (Include ''procurements.urls'')) (sub (Include ''procurements.urls'') rest)
 \<and> root_resolve sub urlpatterns (''/api/chat/'' @ rest) =
     map_option (SubMatch (Include ''chat.urls'')) (sub (Include ''chat.urls'') rest)
 \<and> root_resolve sub urlpatterns (''/api/payments/'' @ rest) =
     map_option (SubMatch (Include ''payments.urls'')) (sub (Include ''payments.urls'') rest)
 \<and> filter (\<lambda>e. pattern_matches e (''api/users/'' @ rest)) urlpatterns =
     [path ''api/users/'' (include ''users.urls'') None]
 \<and> filter (\<lambda>e. pattern_matches e (''api/procurements/'' @ rest)) urlpatterns =
     [path ''api/procurements/'' (include ''procurements.urls'') None]
 \<and> filter (\<lambda>e. pattern_matches e (''api/chat/'' @ rest)) urlpatterns =
     [path ''api/chat/'' (include ''chat.urls'') None]
 \<and> filter (\<lambda>e. pattern_matches e (''api/payments/'' @ rest)) urlpatterns =
     [path ''api/payments/'' (include ''payments.urls'') None]"
  by (simp add: urlpatterns_def route_match_def pattern_matches_def split: option.splits)

text \<open>
  Claim C7. A path that begins with \<^verbatim>\<open>admin/\<close> is handed, with the prefix removed,
  to \<^verbatim>\<open>admin.site.urls\<close> and to nothing else; the admin mount point is the only entry
  whose pattern matches.
\<close>

theorem admin_prefix_selects_admin_site:
  "root_resolve sub urlpatterns (''/admin/'' @ rest) =
     map_option (SubMatch AdminSiteUrls) (sub AdminSiteUrls rest)
 \<and> filter (\<lambda>e. pattern_matches e (''admin/'' @ rest)) urlpatterns =
     [path ''admin/'' admin_site_urls None]"
  by (simp add: urlpatterns_def route_match_def pattern_matches_def split: option.splits)

text \<open>
  Claim C3. A path of which none of the eight registered routes is a leading part
  resolves to no entry of the table, and the request ends in \<^verbatim>\<open>Resolver404\<close>, which
  the framework turns into its not-found response; the application state is untouched.
  The path \<^verbatim>\<open>/nope/\<close> is such a path (see the instance below).
\<close>

theorem unregistered_path_not_found:
  assumes "\<forall>r \<in> set (map route urlpatterns). \<not> prefix r p"
  shows "root_resolve sub urlpatterns (CHR ''/'' # p) = None
    \<and> filter (\<lambda>e. pattern_matches e p) urlpatterns = []
    \<and> (path_info req = CHR ''/'' # p \<longrightarrow>
         get_response sub ext (startup st) req = (Inl Resolver404, startup st))"
proof -
  have r: "resolve sub urlpatterns p = None" using assms by (rule no_prefix_no_match)
  have f: "filter (\<lambda>e. pattern_matches e p) urlpatterns = []"
    using assms pattern_matches_prefix by (auto simp: filter_empty_conv)
  show ?thesis using r f by (simp add: get_response_def startup_def)
qed

text \<open>An instance of the not-found case: the path \<^verbatim>\<open>/nope/\<close>.\<close>

theorem unregistered_path_not_found_witness:
  "list_all (\<lambda>r. \<not> prefix r ''nope/'') (map route urlpatterns)
   \<and> root_resolve (\<lambda>u p. Some ()) urlpatterns ''/nope/'' = None
   \<and> filter (\<lambda>e. pattern_matches e ''nope/'') urlpatterns = []
   \<and> get_response (\<lambda>u p. Some ()) (\<lambda>m r (s::nat server). (Inl TypeError, s\<lparr>ROOT_URLCONF := []\<rparr>)) (startup 0)
        \<lparr>http_method = ''GET'', path_info = ''/nope/'', headers = [], body = []\<rparr>
      = (Inl Resolver404, startup 0)"
proof -
  have h: "\<forall>r \<in> set (map route urlpatterns). \<not> prefix r ''nope/''"
    unfolding routes_table by simp
  show ?thesis
    using h unregistered_path_not_found[OF h, of "\<lambda>u p. Some ()"
        "\<lparr>http_method = ''GET'', path_info = ''/nope/'', headers = [], body = []\<rparr>"
        "\<lambda>m r (s::nat server). (Inl TypeError, s\<lparr>ROOT_URLCONF := []\<rparr>)" "0::nat"]
    by (simp add: list_all_iff)
qed

text \<open>
  Claim C4. The path \<^verbatim>\<open>/api/schema/\<close> resolves to the schema view and
  \<^verbatim>\<open>/api/docs/\<close> to the viewer; the viewer's \<^verbatim>\<open>url_name\<close> is the name under which the
  schema route is registered, and reversing that name gives the schema path whatever the
  included configurations register, since the schema route comes after all of them. The
  resolver looks at the path only, so this holds for a GET as for any method.
\<close>

theorem schema_and_docs_bound_by_name:
  "root_resolve sub urlpatterns ''/api/schema/'' = Some (ViewMatch SpectacularAPIView)
 \<and> root_resolve sub urlpatterns ''/api/docs/'' =
     Some (ViewMatch (SpectacularSwaggerView ''schema''))
 \<and> find (\<lambda>e. route e = ''api/schema/'') urlpatterns =
     Some (URLPattern ''api/schema/'' SpectacularAPIView (Some ''schema''))
 \<and> map_option name (find (\<lambda>e. route e = ''api/schema/'') urlpatterns) =
     Some (url_name (SpectacularSwaggerView ''schema''))
 \<and> reverse inc urlpatterns ''schema'' = Inr ''/api/schema/''"
  by (simp add: reverse_schema) (simp add: urlpatterns_def route_match_def)

text \<open>
  Claim C10, as amended. The names registered in the table are \<^verbatim>\<open>health\<close>,
  \<^verbatim>\<open>schema\<close> and \<^verbatim>\<open>swagger-ui\<close>, pairwise distinct, and each names exactly one entry
  of the table. Reverse lookup of \<^verbatim>\<open>schema\<close> and of \<^verbatim>\<open>swagger-ui\<close> gives the table's
  route whatever the included configurations register. Reverse lookup of \<^verbatim>\<open>health\<close>
  gives the table's route, and finds no other, when none of the four included modules
  brings in a route of that name.
\<close>

theorem route_names_distinct:
  "registered_names urlpatterns = [''health'', ''schema'', ''swagger-ui'']
 \<and> distinct (registered_names urlpatterns)
 \<and> named_routes urlpatterns ''health'' = [''health/'']
 \<and> named_routes urlpatterns ''schema'' = [''api/schema/'']
 \<and> named_routes urlpatterns ''swagger-ui'' = [''api/docs/'']
 \<and> reverse inc urlpatterns ''schema'' = Inr ''/api/schema/''
 \<and> reverse inc urlpatterns ''swagger-ui'' = Inr ''/api/docs/''
 \<and> (\<not> brings_in inc ''users.urls'' ''health''
      \<and> \<not> brings_in inc ''procurements.urls'' ''health''
      \<and> \<not> brings_in inc ''chat.urls'' ''health''
      \<and> \<not> brings_in inc ''payments.urls'' ''health'' \<longrightarrow>
      lookups inc urlpatterns ''health'' = [''health/'']
      \<and> reverse inc urlpatterns ''health'' = Inr ''/health/'')"
proof -
  have t: "registered_names urlpatterns = [''health'', ''schema'', ''swagger-ui'']
     \<and> named_routes urlpatterns ''health'' = [''health/'']
     \<and> named_routes urlpatterns ''schema'' = [''api/schema/'']
     \<and> named_routes urlpatterns ''swagger-ui'' = [''api/docs/'']"
    by (simp add: urlpatterns_def)
  have h: "lookups inc urlpatterns ''health'' = [''health/'']
      \<and> reverse inc urlpatterns ''health'' = Inr ''/health/''"
    if "\<not> brings_in inc ''users.urls'' ''health''"
      "\<not> brings_in inc ''procurements.urls'' ''health''"
      "\<not> brings_in inc ''chat.urls'' ''health''"
      "\<not> brings_in inc ''payments.urls'' ''health''"
    using lookups_health[OF that] reverse_plain(3)[of inc urlpatterns "''health/''" "[]"]
    by simp
  show ?thesis
    using t h reverse_schema[of inc] reverse_swagger_ui[of inc] by simp
qed

text \<open>An instance: the included modules register nothing.\<close>

theorem route_names_distinct_witness:
  "lookups (\<lambda>u. no_names) urlpatterns ''health'' = [''health/'']
 \<and> reverse (\<lambda>u. no_names) urlpatterns ''health'' = Inr ''/health/''
 \<and> reverse (\<lambda>u. no_names) urlpatterns ''schema'' = Inr ''/api/schema/''"
proof -
  have h: "\<not> brings_in (\<lambda>u. no_names) m ''health''" for m
    by (simp add: brings_in_def no_names_def)
  show ?thesis
    using route_names_distinct[of "\<lambda>u. no_names"] h by simp
qed

text \<open>
  The claim as it was stated fails: when \<^verbatim>\<open>users.urls\<close>, which declares no
  \<^verbatim>\<open>app_name\<close> here, has a route \<^verbatim>\<open>health/\<close> named \<^verbatim>\<open>health\<close>, two routes carry
  that name and reverse lookup gives the one of the included module.
\<close>

theorem route_names_distinct_counterexample:
  "lookups users_with_health urlpatterns ''health'' = [''api/users/health/'', ''health/'']
 \<and> reverse users_with_health urlpatterns ''health'' = Inr ''/api/users/health/''
 \<and> reverse users_with_health urlpatterns ''health'' \<noteq> Inr ''/health/''"
proof -
  have l: "lookups users_with_health urlpatterns ''health'' =
      [''api/users/health/'', ''health/'']"
    unfolding lookups_def rev_urlpatterns
    by (simp add: users_with_health_def namespace_of_def no_names_def)
  show ?thesis
    using l reverse_plain(3)[of users_with_health urlpatterns "''api/users/health/''" "[''health/'']"]
    by simp
qed



text \<open>
  The table is not out of reach of a view: a collaborator that empties it does change
  it, so what is proved above rests on what \<open>health_check\<close> and the resolver do.
\<close>

lemma collaborator_can_change_table:
  "ROOT_URLCONF (serve (\<lambda>u rest. Some ())
       (\<lambda>m r (s::nat server). (Inl TypeError, s\<lparr>ROOT_URLCONF := []\<rparr>))
       (startup 0)
       [\<lparr>http_method = ''GET'', path_info = ''/api/users/7/'', headers = [], body = []\<rparr>])
     = []"
  by (simp add: get_response_def startup_def urlpatterns_def route_match_def)

end
